theory Spec2Isabelle
  imports Main "HOL-Library.Sublist" "HOL-Library.AList"
begin


section \<open>JavaScript values as the summarizer sees them\<close>

text \<open>
  The DOM payload reaches the agent as the result of \<^verbatim>\<open>JSON.parse\<close> (or as the
  \<^verbatim>\<open>json\<close> member of a tool result), typed \<^verbatim>\<open>unknown\<close>. A payload is therefore a
  JSON value; \<open>JUndefined\<close> is added for the value of a property that is not there.
  An object is the list of its entries in the order \<^verbatim>\<open>Object.entries\<close> enumerates them
  (a look-up takes the first entry of a key). A string is a list of code units, here
  restricted to the range 0..255. A number is an integer, as node ids, node types and
  child counts are; the program tells numbers apart only by \<^verbatim>\<open>typeof\<close>, by truthiness
  and by the digits \<^verbatim>\<open>String\<close> prints, which are plain decimal digits below \<^verbatim>\<open>1e21\<close>.
\<close>

datatype jsval =
    JUndefined
  | JNull
  | JBool bool
  | JNum int
  | JStr string
  | JArr "jsval list"
  | JObj "(string \<times> jsval) list"

datatype error = TypeError | SyntaxError | Error string

text \<open>\<^verbatim>\<open>!x\<close> is \<open>\<not> truthy x\<close>.\<close>

fun truthy :: "jsval \<Rightarrow> bool" where
  "truthy JUndefined = False"
| "truthy JNull = False"
| "truthy (JBool b) = b"
| "truthy (JNum n) = (n \<noteq> 0)"
| "truthy (JStr s) = (s \<noteq> [])"
| "truthy (JArr xs) = True"
| "truthy (JObj fs) = True"

fun typeof :: "jsval \<Rightarrow> string" where
  "typeof JUndefined = ''undefined''"
| "typeof JNull = ''object''"
| "typeof (JBool b) = ''boolean''"
| "typeof (JNum n) = ''number''"
| "typeof (JStr s) = ''string''"
| "typeof (JArr xs) = ''object''"
| "typeof (JObj fs) = ''object''"

text \<open>\<^verbatim>\<open>a ?? b\<close>: the right operand replaces only \<^verbatim>\<open>null\<close> and \<^verbatim>\<open>undefined\<close>.\<close>

fun coalesce :: "jsval \<Rightarrow> jsval \<Rightarrow> jsval" where
  "coalesce JUndefined b = b"
| "coalesce JNull b = b"
| "coalesce a b = a"

text \<open>
  \<^verbatim>\<open>record.key\<close> on a value that passed the object test, for the keys this program reads
  (\<^verbatim>\<open>nodeName\<close>, \<^verbatim>\<open>localName\<close>, \<^verbatim>\<open>name\<close>, \<^verbatim>\<open>nodeValue\<close>, \<^verbatim>\<open>attributes\<close>, \<^verbatim>\<open>children\<close>, \<^verbatim>\<open>root\<close>,
  \<^verbatim>\<open>result\<close>): none of them is a property of an array or of \<^verbatim>\<open>Object.prototype\<close>.
\<close>

fun getProp :: "jsval \<Rightarrow> string \<Rightarrow> jsval" where
  "getProp (JObj fs) k = (case map_of fs k of Some v \<Rightarrow> v | None \<Rightarrow> JUndefined)"
| "getProp v k = JUndefined"

text \<open>\<^verbatim>\<open>key in record\<close>, for the same keys.\<close>

fun hasProp :: "string \<Rightarrow> jsval \<Rightarrow> bool" where
  "hasProp k (JObj fs) = (k \<in> fst ` set fs)"
| "hasProp k v = False"

fun isArray :: "jsval \<Rightarrow> bool" where
  "isArray (JArr xs) = True"
| "isArray v = False"

fun elems :: "jsval \<Rightarrow> jsval list" where
  "elems (JArr xs) = xs"
| "elems v = []"

subsection \<open>Strings\<close>

text \<open>Decimal digits of a count, as a template literal prints a non-negative integer.\<close>

fun dec :: "nat \<Rightarrow> string" where
  "dec n = (if n < 10 then [char_of (48 + n)] else dec (n div 10) @ [char_of (48 + n mod 10)])"

declare dec.simps [simp del]

definition numberToString :: "int \<Rightarrow> string" where
  "numberToString n = (if n < 0 then ''-'' @ dec (nat (- n)) else dec (nat n))"

text \<open>\<^verbatim>\<open>xs.join(sep)\<close> on a list of strings.\<close>

fun join :: "string \<Rightarrow> string list \<Rightarrow> string" where
  "join sep [] = []"
| "join sep [x] = x"
| "join sep (x # y # ys) = x @ sep @ join sep (y # ys)"

text \<open>
  \<^verbatim>\<open>String(v)\<close>. An array prints its elements joined by commas, \<^verbatim>\<open>null\<close> and
  \<^verbatim>\<open>undefined\<close> elements as the empty string; a plain object prints \<^verbatim>\<open>[object Object]\<close>.
\<close>

fun js_String :: "jsval \<Rightarrow> string" where
  "js_String JUndefined = ''undefined''"
| "js_String JNull = ''null''"
| "js_String (JBool b) = (if b then ''true'' else ''false'')"
| "js_String (JNum n) = numberToString n"
| "js_String (JStr s) = s"
| "js_String (JArr xs) =
     join '','' (map (\<lambda>x. if x = JUndefined \<or> x = JNull then [] else js_String x) xs)"
| "js_String (JObj fs) = ''[object Object]''"

text \<open>
  White space and line terminators that \<^verbatim>\<open>trim\<close> strips, among the code units 0..255:
  tab, line feed, vertical tab, form feed, carriage return, space, no-break space.
\<close>

definition isWhiteSpace :: "char \<Rightarrow> bool" where
  "isWhiteSpace c = ((of_char c :: nat) \<in> {9, 10, 11, 12, 13, 32, 160})"

definition trim :: "string \<Rightarrow> string" where
  "trim s = rev (dropWhile isWhiteSpace (rev (dropWhile isWhiteSpace s)))"

text \<open>
  \<^verbatim>\<open>toLowerCase\<close> on the code units 0..255: A..Z and the Latin-1 capitals
  (U+00C0..U+00DE but the multiplication sign) move up by 32.
\<close>

definition lowerChar :: "char \<Rightarrow> char" where
  "lowerChar c =
     (let n = (of_char c :: nat) in
      if (65 \<le> n \<and> n \<le> 90) \<or> (192 \<le> n \<and> n \<le> 222 \<and> n \<noteq> 215) then char_of (n + 32) else c)"

definition toLowerCase :: "string \<Rightarrow> string" where
  "toLowerCase s = map lowerChar s"

text \<open>
  \<^verbatim>\<open>nodeName.toLowerCase()\<close> where \<^verbatim>\<open>nodeName\<close> was only cast to \<^verbatim>\<open>string\<close>: on a value
  that is not a string the member is not a function and the call raises a TypeError.
\<close>

fun callToLowerCase :: "jsval \<Rightarrow> error + string" where
  "callToLowerCase (JStr s) = Inr (toLowerCase s)"
| "callToLowerCase v = Inl TypeError"

text \<open>\<^verbatim>\<open>"  ".repeat(depth)\<close>\<close>

definition indent :: "nat \<Rightarrow> string" where
  "indent depth = concat (replicate depth ''  '')"

section \<open>The DOM outline summarizer\<close>

text \<open>
  \<^verbatim>\<open>formatAttributes\<close>: the flat form, consumed two entries at a time; a missing value
  reads as \<^verbatim>\<open>undefined\<close> and prints empty, an entry with an empty key is skipped.
\<close>

definition attrPair :: "string \<Rightarrow> string \<Rightarrow> string" where
  "attrPair key val = key @ ''=\"'' @ val @ ''\"''"

fun formatAttributes :: "jsval list \<Rightarrow> string list" where
  "formatAttributes [] = []"
| "formatAttributes [k] =
     (let key = js_String (coalesce k (JStr [])); val = js_String (coalesce JUndefined (JStr []))
      in if length key = 0 then [] else [attrPair key val])"
| "formatAttributes (k # v # rest) =
     (let key = js_String (coalesce k (JStr [])); val = js_String (coalesce v (JStr []))
      in if length key = 0 then formatAttributes rest else attrPair key val # formatAttributes rest)"

text \<open>
  \<^verbatim>\<open>formatAttributeObject\<close>: the mapping form, in enumeration order. (The entries of an
  array are its elements under their indices; the caller passes no array.)
\<close>

definition entries :: "jsval \<Rightarrow> (string \<times> jsval) list" where
  "entries v =
     (case v of
        JObj fs \<Rightarrow> fs
      | JArr xs \<Rightarrow> zip (map dec [0..<length xs]) xs
      | _ \<Rightarrow> [])"

definition formatAttributeObject :: "jsval \<Rightarrow> string list" where
  "formatAttributeObject attributes =
     (if \<not> truthy attributes \<or> typeof attributes \<noteq> ''object'' then []
      else map (\<lambda>(key, val). attrPair key (js_String val)) (entries attributes))"

definition nodeNameOf :: "jsval \<Rightarrow> jsval" where
  "nodeNameOf record =
     coalesce (coalesce (coalesce (getProp record ''nodeName'') (getProp record ''localName''))
                 (getProp record ''name''))
       (JStr ''?'')"

definition attrStringOf :: "jsval \<Rightarrow> string" where
  "attrStringOf record =
     (let attrs = (if isArray (getProp record ''attributes'')
                   then formatAttributes (elems (getProp record ''attributes''))
                   else formatAttributeObject (getProp record ''attributes''))
      in if length attrs > 0 then '' '' @ join '' '' attrs else [])"

definition childrenOf :: "jsval \<Rightarrow> jsval list" where
  "childrenOf record =
     (if isArray (getProp record ''children'') then elems (getProp record ''children'') else [])"

definition omittedLine :: "nat \<Rightarrow> nat \<Rightarrow> string" where
  "omittedLine depth n = indent depth @ ''  ... ('' @ dec n @ '' more children)''"

definition elementLine :: "nat \<Rightarrow> string \<Rightarrow> string \<Rightarrow> string" where
  "elementLine depth lowered attrString = indent depth @ ''<'' @ lowered @ attrString @ ''>''"

definition textLine :: "nat \<Rightarrow> string \<Rightarrow> string" where
  "textLine depth val = indent depth @ ''#text '' @ take 60 val"

text \<open>
  \<^verbatim>\<open>appendNodeSummary(node, lines, depth, maxDepth, maxChildren)\<close>. The array
  \<^verbatim>\<open>lines\<close> is passed in and returned grown; \<open>Inl\<close> is an exception that leaves the
  function. \<open>appendChildren\<close> is its \<^verbatim>\<open>for (const child of limited)\<close> loop. The depth and
  the two limits are counts (the only caller passes 0, 3 and 8).
\<close>

function appendNodeSummary :: "jsval \<Rightarrow> string list \<Rightarrow> nat \<Rightarrow> nat \<Rightarrow> nat \<Rightarrow> error + string list"
  and appendChildren :: "jsval list \<Rightarrow> string list \<Rightarrow> nat \<Rightarrow> nat \<Rightarrow> nat \<Rightarrow> error + string list"
where
  "appendNodeSummary node lines depth maxDepth maxChildren =
     (if \<not> truthy node \<or> typeof node \<noteq> ''object'' then Inr lines
      else if nodeNameOf node = JStr ''#text'' then
        (let val = trim (js_String (coalesce (getProp node ''nodeValue'') (JStr [])))
         in if length val = 0 then Inr lines else Inr (lines @ [textLine depth val]))
      else
        (case callToLowerCase (nodeNameOf node) of
           Inl e \<Rightarrow> Inl e
         | Inr lowered \<Rightarrow>
             (let lines1 = lines @ [elementLine depth lowered (attrStringOf node)] in
              if depth \<ge> maxDepth then
                (let childCount = (if isArray (getProp node ''children'')
                                   then length (elems (getProp node ''children'')) else 0)
                 in if childCount > 0 then Inr (lines1 @ [omittedLine depth childCount])
                    else Inr lines1)
              else
                (let children = childrenOf node; limited = take maxChildren children in
                 case appendChildren limited lines1 (depth + 1) maxDepth maxChildren of
                   Inl e \<Rightarrow> Inl e
                 | Inr lines2 \<Rightarrow>
                     if length children > maxChildren
                     then Inr (lines2 @ [omittedLine depth (length children - maxChildren)])
                     else Inr lines2))))"
| "appendChildren [] lines depth maxDepth maxChildren = Inr lines"
| "appendChildren (child # rest) lines depth maxDepth maxChildren =
     (case appendNodeSummary child lines depth maxDepth maxChildren of
        Inl e \<Rightarrow> Inl e
      | Inr lines' \<Rightarrow> appendChildren rest lines' depth maxDepth maxChildren)"
  by pat_completeness auto

termination
  by (relation "measures
        [\<lambda>x. case x of Inl (n, l, d, md, mc) \<Rightarrow> 2 * (Suc md - d)
                      | Inr (cs, l, d, md, mc) \<Rightarrow> 2 * (Suc md - d) + 1,
         \<lambda>x. case x of Inl (n, l, d, md, mc) \<Rightarrow> 0
                      | Inr (cs, l, d, md, mc) \<Rightarrow> length cs]") auto

declare appendNodeSummary.simps [simp del]

text \<open>\<^verbatim>\<open>resolveRootNode\<close>\<close>

definition resolveRootNode :: "jsval \<Rightarrow> jsval" where
  "resolveRootNode payload =
     (if \<not> truthy payload \<or> typeof payload \<noteq> ''object'' then JUndefined
      else if hasProp ''root'' payload then getProp payload ''root''
      else if hasProp ''result'' payload \<and>
              truthy (getProp payload ''result'') \<and>
              typeof (getProp payload ''result'') = ''object'' \<and>
              hasProp ''root'' (getProp payload ''result'')
           then getProp (getProp payload ''result'') ''root''
      else payload)"

text \<open>
  \<^verbatim>\<open>stringifyDomPayload\<close>: \<open>Inr None\<close> is the result \<^verbatim>\<open>undefined\<close>, \<open>Inl\<close> an exception
  that escapes.
\<close>

definition stringifyDomPayload :: "jsval \<Rightarrow> error + string option" where
  "stringifyDomPayload payload =
     (if \<not> truthy payload \<or> typeof payload \<noteq> ''object'' then Inr None
      else let root = resolveRootNode payload in
        if \<not> truthy root then Inr None
        else case appendNodeSummary root [] 0 3 8 of
               Inl e \<Rightarrow> Inl e
             | Inr lines \<Rightarrow> Inr (Some (join [CHR 10] lines)))"

section \<open>Outline capture\<close>

text \<open>
  A tool result as \<^verbatim>\<open>extractJsonPayload\<close> reads it: the content items of type
  \<^verbatim>\<open>json\<close>, those of type \<^verbatim>\<open>text\<close> with a string, and all others; \<^verbatim>\<open>content\<close> may be
  missing.
\<close>

datatype ToolContent = JsonContent jsval | TextContent string | OtherContent

record CallToolResult =
  content :: "ToolContent list option"

text \<open>
  \<^verbatim>\<open>extractJsonPayload\<close>. \<^verbatim>\<open>JSON.parse\<close> is the parameter \<open>parse\<close>; \<open>None\<close> is its
  SyntaxError, which the loop ignores.
\<close>

fun extractItems :: "(string \<Rightarrow> jsval option) \<Rightarrow> ToolContent list \<Rightarrow> jsval list" where
  "extractItems parse [] = []"
| "extractItems parse (JsonContent j # items) = j # extractItems parse items"
| "extractItems parse (TextContent t # items) =
     (case parse t of Some v \<Rightarrow> v # extractItems parse items | None \<Rightarrow> extractItems parse items)"
| "extractItems parse (OtherContent # items) = extractItems parse items"

definition extractJsonPayload :: "(string \<Rightarrow> jsval option) \<Rightarrow> CallToolResult \<Rightarrow> jsval list" where
  "extractJsonPayload parse result =
     extractItems parse (case content result of None \<Rightarrow> [] | Some items \<Rightarrow> items)"

text \<open>
  The loop of \<^verbatim>\<open>captureDomOutline\<close> over the payloads: the first outline that is a
  non-empty string is returned; an exception of \<^verbatim>\<open>stringifyDomPayload\<close> leaves the loop.
\<close>

fun firstOutline :: "jsval list \<Rightarrow> error + string option" where
  "firstOutline [] = Inr None"
| "firstOutline (payload # payloads) =
     (case stringifyDomPayload payload of
        Inl e \<Rightarrow> Inl e
      | Inr None \<Rightarrow> firstOutline payloads
      | Inr (Some outline) \<Rightarrow> if outline \<noteq> [] then Inr (Some outline) else firstOutline payloads)"

text \<open>
  \<^verbatim>\<open>captureDomOutline\<close>. The argument \<open>fetched\<close> is the outcome of awaiting
  \<^verbatim>\<open>callCdpMethod("DOM.getDocument", ...)\<close>: a tool result, or the error it rejected with.
  The \<^verbatim>\<open>try\<close> block encloses the fetch and the loop, and the \<^verbatim>\<open>catch\<close> only logs.
\<close>

definition captureDomOutline :: "(string \<Rightarrow> jsval option) \<Rightarrow> error + CallToolResult \<Rightarrow> string" where
  "captureDomOutline parse fetched =
     (case fetched of
        Inl e \<Rightarrow> ''<dom outline unavailable>''
      | Inr result \<Rightarrow>
          (case firstOutline (extractJsonPayload parse result) of
             Inl e \<Rightarrow> ''<dom outline unavailable>''
           | Inr None \<Rightarrow> ''<dom outline unavailable>''
           | Inr (Some outline) \<Rightarrow> outline))"

section \<open>Reading the outline's lines\<close>


definition isTextLineAt :: "nat \<Rightarrow> string \<Rightarrow> bool" where
  "isTextLineAt e l = prefix (indent e @ ''#text '') l"

definition isOmittedLineAt :: "nat \<Rightarrow> string \<Rightarrow> bool" where
  "isOmittedLineAt e l = prefix (indent e @ ''  ... ('') l"

text \<open>
  What a call at depth \<open>d\<close> with limit \<open>md\<close> can push: element and text lines of the levels
  from \<open>d\<close> on, and omission lines below them.
\<close>

definition emitted :: "nat \<Rightarrow> nat \<Rightarrow> string \<Rightarrow> bool" where
  "emitted d md l =
     (\<exists>e c r. l = indent e @ c # r \<and>
        ((c = CHR ''<'' \<or> c = CHR ''#'') \<and> d \<le> e \<and> e \<le> max d md \<or>
         c = CHR ''.'' \<and> d < e \<and> e \<le> Suc (max d md)))"

section \<open>Sample inputs\<close>

definition sampleBody :: jsval where
  "sampleBody =
     JObj [(''nodeName'', JStr ''BODY''),
           (''children'', JArr [
              JObj [(''nodeName'', JStr ''DIV''),
                    (''children'', JArr [JObj [(''nodeName'', JStr ''SPAN'')]])],
              JObj [(''nodeName'', JStr ''#text''), (''nodeValue'', JStr ''hi'')],
              JObj [(''nodeName'', JStr ''P'')]])]"


section \<open>Capability resolver\<close>








section \<open>Plan validator\<close>

text \<open>
  \<^verbatim>\<open>BreakpointPlanSchema\<close> is a schema of the zod library; \<^verbatim>\<open>parse\<close> of a schema either
  returns the typed value or fails with the list of issues found. The model follows the
  library's documented meaning of the combinators the schema is built from.
\<close>

datatype TargetType = DomEvent | FunctionCall

record BreakpointPlan =
  targetType :: TargetType
  selector :: "string option"
  eventType :: "string option"
  functionName :: "string option"
  explanation :: "string option"
  consoleNotes :: "string list"

text \<open>An issue names the member it is about, or carries the message of a refinement.\<close>

datatype ZodIssue = InvalidType string | InvalidEnumValue string | TooSmall string | Custom string

text \<open>\<^verbatim>\<open>z.enum(["dom-event", "function-call"])\<close>\<close>

fun parseTargetType :: "jsval \<Rightarrow> ZodIssue list + TargetType" where
  "parseTargetType (JStr s) =
     (if s = ''dom-event'' then Inr DomEvent
      else if s = ''function-call'' then Inr FunctionCall
      else Inl [InvalidEnumValue ''targetType''])"
| "parseTargetType v = Inl [InvalidType ''targetType'']"

text \<open>
  \<^verbatim>\<open>z.string().min(n).optional()\<close> on the member \<open>key\<close>: \<^verbatim>\<open>undefined\<close> (a missing member)
  is accepted and stays absent; anything else must be a string of at least \<open>n\<close>
  characters. \<^verbatim>\<open>z.string().optional()\<close> is the case \<open>n = 0\<close>.
\<close>

fun parseOptionalString :: "nat \<Rightarrow> string \<Rightarrow> jsval \<Rightarrow> ZodIssue list + string option" where
  "parseOptionalString n key JUndefined = Inr None"
| "parseOptionalString n key (JStr s) = (if length s < n then Inl [TooSmall key] else Inr (Some s))"
| "parseOptionalString n key v = Inl [InvalidType key]"

fun isString :: "jsval \<Rightarrow> bool" where
  "isString (JStr s) = True"
| "isString v = False"

fun stringOf :: "jsval \<Rightarrow> string" where
  "stringOf (JStr s) = s"
| "stringOf v = []"

text \<open>\<^verbatim>\<open>z.array(z.string()).default([])\<close>: a missing member becomes the empty array.\<close>

fun parseConsoleNotes :: "jsval \<Rightarrow> ZodIssue list + string list" where
  "parseConsoleNotes JUndefined = Inr []"
| "parseConsoleNotes (JArr xs) =
     (if list_all isString xs then Inr (map stringOf xs) else Inl [InvalidType ''consoleNotes''])"
| "parseConsoleNotes v = Inl [InvalidType ''consoleNotes'']"

definition issuesOf :: "ZodIssue list + 'a \<Rightarrow> ZodIssue list" where
  "issuesOf r = (case r of Inl issues \<Rightarrow> issues | Inr v \<Rightarrow> [])"

text \<open>
  The \<^verbatim>\<open>superRefine\<close> of the schema, run on a value of the base shape: each \<^verbatim>\<open>if\<close> adds
  its issue. \<^verbatim>\<open>!value.selector\<close> holds for an absent and for an empty string.
\<close>

definition falsyString :: "string option \<Rightarrow> bool" where
  "falsyString s = (s = None \<or> s = Some [])"

definition superRefine :: "BreakpointPlan \<Rightarrow> ZodIssue list" where
  "superRefine v =
     (if targetType v = DomEvent \<and> falsyString (selector v)
      then [Custom ''selector is required for dom-event plans''] else []) @
     (if targetType v = FunctionCall \<and> falsyString (functionName v)
      then [Custom ''functionName is required for function-call plans''] else [])"

text \<open>
  \<^verbatim>\<open>BreakpointPlanSchema.parse(raw)\<close>: the input must be a plain object; every member
  of the shape is parsed and the issues are collected; members the shape does not name
  are dropped. The refinement runs once the base shape has passed.
\<close>

definition validate :: "jsval \<Rightarrow> ZodIssue list + BreakpointPlan" where
  "validate raw =
     (case raw of
        JObj fs \<Rightarrow>
          (let tt = parseTargetType (getProp raw ''targetType'');
               sel = parseOptionalString 1 ''selector'' (getProp raw ''selector'');
               ev = parseOptionalString 1 ''eventType'' (getProp raw ''eventType'');
               fn = parseOptionalString 1 ''functionName'' (getProp raw ''functionName'');
               ex = parseOptionalString 0 ''explanation'' (getProp raw ''explanation'');
               notes = parseConsoleNotes (getProp raw ''consoleNotes'')
           in case (tt, sel, ev, fn, ex, notes) of
                (Inr t, Inr s, Inr e, Inr f, Inr x, Inr n) \<Rightarrow>
                  (let v = \<lparr>targetType = t, selector = s, eventType = e, functionName = f,
                            explanation = x, consoleNotes = n\<rparr>
                   in if superRefine v = [] then Inr v else Inl (superRefine v))
              | _ \<Rightarrow>
                  Inl (issuesOf tt @ issuesOf sel @ issuesOf ev @ issuesOf fn @ issuesOf ex @
                       issuesOf notes))
      | _ \<Rightarrow> Inl [InvalidType []])"

text \<open>
  The shapes the schema accepts for the optional members, and the values they are parsed
  to, stated on their own for the properties below.
\<close>

definition optionalOk :: "nat \<Rightarrow> jsval \<Rightarrow> bool" where
  "optionalOk n v = (case v of JUndefined \<Rightarrow> True | JStr s \<Rightarrow> n \<le> length s | _ \<Rightarrow> False)"

definition optionalValue :: "jsval \<Rightarrow> string option" where
  "optionalValue v = (case v of JStr s \<Rightarrow> Some s | _ \<Rightarrow> None)"

definition notesOk :: "jsval \<Rightarrow> bool" where
  "notesOk v = (case v of JUndefined \<Rightarrow> True | JArr xs \<Rightarrow> list_all isString xs | _ \<Rightarrow> False)"

definition notesValue :: "jsval \<Rightarrow> string list" where
  "notesValue v = (case v of JArr xs \<Rightarrow> map stringOf xs | _ \<Rightarrow> [])"

definition othersOk :: "jsval \<Rightarrow> bool" where
  "othersOk raw =
     (optionalOk 1 (getProp raw ''selector'') \<and> optionalOk 1 (getProp raw ''eventType'') \<and>
      optionalOk 1 (getProp raw ''functionName'') \<and> optionalOk 0 (getProp raw ''explanation'') \<and>
      notesOk (getProp raw ''consoleNotes''))"

definition planOf :: "TargetType \<Rightarrow> jsval \<Rightarrow> BreakpointPlan" where
  "planOf t raw =
     \<lparr>targetType = t,
      selector = optionalValue (getProp raw ''selector''),
      eventType = optionalValue (getProp raw ''eventType''),
      functionName = optionalValue (getProp raw ''functionName''),
      explanation = optionalValue (getProp raw ''explanation''),
      consoleNotes = notesValue (getProp raw ''consoleNotes'')\<rparr>"

definition samplePlanInput :: jsval where
  "samplePlanInput =
     JObj [(''targetType'', JStr ''dom-event''), (''selector'', JStr ''#save-btn''),
           (''eventType'', JStr ''click''), (''extra'', JNum 1)]"


section \<open>Instrumentation generator\<close>


text \<open>\<^verbatim>\<open>s.split(sep)\<close> for a one-character separator: never the empty array.\<close>

fun split :: "char \<Rightarrow> string \<Rightarrow> string list" where
  "split sep [] = [[]]"
| "split sep (c # cs) =
     (if c = sep then [] # split sep cs
      else case split sep cs of w # ws \<Rightarrow> (c # w) # ws | [] \<Rightarrow> [[c]])"




subsection \<open>The page a fragment runs in\<close>

text \<open>
  Values of the page: \<^verbatim>\<open>undefined\<close>, \<^verbatim>\<open>null\<close>, a primitive (its truthiness, and the
  address of the prototype object whose members it shows), or a reference to an object.
  A function is an object that can be called: \<open>Native n\<close> is a function of the page,
  \<open>Wrapper original label\<close> is the function \<^verbatim>\<open>wrapped\<close> that a fragment creates, closed
  over \<^verbatim>\<open>original\<close> and \<^verbatim>\<open>label\<close>.
\<close>

datatype rtval = RUndefined | RNull | RPrim bool nat | RRef nat

datatype closure = Native nat | Wrapper closure string

text \<open>
  An object lists the members that can be read from it, its own and those it inherits;
  all are plain writable data properties. The heap is the list of the objects, an
  address is a position in it.
\<close>

record jsobject =
  props :: "(string \<times> rtval) list"
  callable :: "closure option"



fun truthyR :: "rtval \<Rightarrow> bool" where
  "truthyR RUndefined = False"
| "truthyR RNull = False"
| "truthyR (RPrim t proto) = t"
| "truthyR (RRef a) = True"

definition objectAt :: "jsobject list \<Rightarrow> nat \<Rightarrow> jsobject" where
  "objectAt h a = (if a < length h then h ! a else \<lparr>props = [], callable = None\<rparr>)"

text \<open>
  \<^verbatim>\<open>v[key]\<close> on a truthy value (the fragment reads no member of \<^verbatim>\<open>null\<close> or
  \<^verbatim>\<open>undefined\<close>): a primitive shows the members of its prototype.
\<close>

fun getMember :: "jsobject list \<Rightarrow> rtval \<Rightarrow> string \<Rightarrow> rtval" where
  "getMember h (RRef a) key =
     (case map_of (props (objectAt h a)) key of Some v \<Rightarrow> v | None \<Rightarrow> RUndefined)"
| "getMember h (RPrim t proto) key =
     (case map_of (props (objectAt h proto)) key of Some v \<Rightarrow> v | None \<Rightarrow> RUndefined)"
| "getMember h v key = RUndefined"

text \<open>\<^verbatim>\<open>key in v\<close>: a TypeError unless \<open>v\<close> is an object.\<close>

fun hasMember :: "jsobject list \<Rightarrow> rtval \<Rightarrow> string \<Rightarrow> error + bool" where
  "hasMember h (RRef a) key = Inr (key \<in> fst ` set (props (objectAt h a)))"
| "hasMember h v key = Inl TypeError"






subsection \<open>The event-listener fragment\<close>


subsection \<open>The function-wrapping fragment\<close>


text \<open>The members that the loop reads, each with the value it is read from.\<close>

fun walkSlots :: "jsobject list \<Rightarrow> rtval \<Rightarrow> string list \<Rightarrow> (rtval \<times> string) list" where
  "walkSlots h context [] = []"
| "walkSlots h context (part # parts) =
     (context, part) #
     (if truthyR context \<and> hasMember h context part = Inr True
      then walkSlots h (getMember h context part) parts else [])"




subsection \<open>Calling a function of the page\<close>

text \<open>
  What a call does, as the list of what happens and the value returned or the exception
  thrown. A function of the page is recorded with its receiver and arguments. The
  wrapper logs under its label (a failure while logging is caught), stops at
  \<^verbatim>\<open>debugger\<close>, and returns \<^verbatim>\<open>original.apply(this, args)\<close>.
\<close>

datatype callEvent = Logged string | Paused | Invoked nat rtval "rtval list"


fun isInvoked :: "callEvent \<Rightarrow> bool" where
  "isInvoked (Invoked n this args) = True"
| "isInvoked e = False"

subsection \<open>A sample page and sample plans\<close>




section \<open>Properties of the summarizer\<close>

lemma indent_replicate: "indent d = replicate (2 * d) CHR '' ''"
  by (induction d) (simp_all add: indent_def)

lemma appendNodeSummary_skip:
  "\<not> truthy node \<or> typeof node \<noteq> ''object'' \<Longrightarrow>
   appendNodeSummary node lines depth maxDepth maxChildren = Inr lines"
  by (subst appendNodeSummary.simps(1)) simp

lemma appendNodeSummary_text:
  "truthy node \<Longrightarrow> typeof node = ''object'' \<Longrightarrow> nodeNameOf node = JStr ''#text'' \<Longrightarrow>
   appendNodeSummary node lines depth maxDepth maxChildren =
     (if trim (js_String (coalesce (getProp node ''nodeValue'') (JStr []))) = [] then Inr lines
      else Inr (lines @ [textLine depth (trim (js_String (coalesce (getProp node ''nodeValue'') (JStr []))))]))"
  by (subst appendNodeSummary.simps(1)) (simp add: Let_def)

lemma appendNodeSummary_raise:
  "truthy node \<Longrightarrow> typeof node = ''object'' \<Longrightarrow> nodeNameOf node \<noteq> JStr ''#text'' \<Longrightarrow>
   callToLowerCase (nodeNameOf node) = Inl e \<Longrightarrow>
   appendNodeSummary node lines depth maxDepth maxChildren = Inl e"
  by (subst appendNodeSummary.simps(1)) simp

lemma appendNodeSummary_leaf:
  "truthy node \<Longrightarrow> typeof node = ''object'' \<Longrightarrow> nodeNameOf node \<noteq> JStr ''#text'' \<Longrightarrow>
   callToLowerCase (nodeNameOf node) = Inr lowered \<Longrightarrow> maxDepth \<le> depth \<Longrightarrow>
   appendNodeSummary node lines depth maxDepth maxChildren =
     Inr (lines @ elementLine depth lowered (attrStringOf node) #
            (if childrenOf node = [] then [] else [omittedLine depth (length (childrenOf node))]))"
  by (subst appendNodeSummary.simps(1)) (simp add: Let_def childrenOf_def)

lemma appendNodeSummary_inner:
  "truthy node \<Longrightarrow> typeof node = ''object'' \<Longrightarrow> nodeNameOf node \<noteq> JStr ''#text'' \<Longrightarrow>
   callToLowerCase (nodeNameOf node) = Inr lowered \<Longrightarrow> depth < maxDepth \<Longrightarrow>
   appendNodeSummary node lines depth maxDepth maxChildren =
     (case appendChildren (take maxChildren (childrenOf node))
             (lines @ [elementLine depth lowered (attrStringOf node)]) (Suc depth) maxDepth maxChildren of
        Inl e \<Rightarrow> Inl e
      | Inr lines2 \<Rightarrow>
          Inr (lines2 @ (if maxChildren < length (childrenOf node)
                 then [omittedLine depth (length (childrenOf node) - maxChildren)] else [])))"
  by (subst appendNodeSummary.simps(1)) (simp add: Let_def split: sum.splits)

lemma append_only:
  "\<forall>ls. appendNodeSummary node ls d md mc =
     (case appendNodeSummary node [] d md mc of Inl e \<Rightarrow> Inl e | Inr new \<Rightarrow> Inr (ls @ new))"
  "\<forall>ls. appendChildren cs ls d md mc =
     (case appendChildren cs [] d md mc of Inl e \<Rightarrow> Inl e | Inr new \<Rightarrow> Inr (ls @ new))"
proof (induction node "lines0 :: string list" d md mc and cs "lines0 :: string list" d md mc
    rule: appendNodeSummary_appendChildren.induct)
  case (1 node lines0 depth maxDepth maxChildren)
  show ?case
  proof
    fix ls
    let ?goal = "appendNodeSummary node ls depth maxDepth maxChildren =
     (case appendNodeSummary node [] depth maxDepth maxChildren of Inl e \<Rightarrow> Inl e | Inr new \<Rightarrow> Inr (ls @ new))"
    consider (c_skip) "\<not> truthy node \<or> typeof node \<noteq> ''object''"
      | (c_text) "truthy node" "typeof node = ''object''" "nodeNameOf node = JStr ''#text''"
      | (c_raise) e where "truthy node" "typeof node = ''object''" "nodeNameOf node \<noteq> JStr ''#text''"
          "callToLowerCase (nodeNameOf node) = Inl e"
      | (c_leaf) lowered where "truthy node" "typeof node = ''object''" "nodeNameOf node \<noteq> JStr ''#text''"
          "callToLowerCase (nodeNameOf node) = Inr lowered" "maxDepth \<le> depth"
      | (c_inner) lowered where "truthy node" "typeof node = ''object''" "nodeNameOf node \<noteq> JStr ''#text''"
          "callToLowerCase (nodeNameOf node) = Inr lowered" "depth < maxDepth"
      by (cases "callToLowerCase (nodeNameOf node)") (use not_le in blast)+
    then show ?goal
    proof cases
      case c_skip
      then show ?thesis by (simp add: appendNodeSummary_skip)
    next
      case c_text
      then show ?thesis by (simp add: appendNodeSummary_text)
    next
      case c_raise
      then show ?thesis by (simp add: appendNodeSummary_raise)
    next
      case c_leaf
      then show ?thesis by (simp add: appendNodeSummary_leaf)
    next
      case c_inner
      have ih: "\<forall>ls. appendChildren (take maxChildren (childrenOf node)) ls (depth + 1) maxDepth maxChildren =
         (case appendChildren (take maxChildren (childrenOf node)) [] (depth + 1) maxDepth maxChildren of
            Inl e \<Rightarrow> Inl e | Inr new \<Rightarrow> Inr (ls @ new))"
        using c_inner by (intro "1.IH"[OF _ _ _ refl _ refl refl]) auto
      show ?thesis
        using c_inner ih[rule_format, of "ls @ [elementLine depth lowered (attrStringOf node)]"]
          ih[rule_format, of "[elementLine depth lowered (attrStringOf node)]"]
        by (simp add: appendNodeSummary_inner split: sum.splits)
    qed
  qed
next
  case (2 lines0 depth maxDepth maxChildren)
  then show ?case by simp
next
  case (3 child rest lines0 depth maxDepth maxChildren)
  show ?case
  proof
    fix ls
    show "appendChildren (child # rest) ls depth maxDepth maxChildren =
      (case appendChildren (child # rest) [] depth maxDepth maxChildren of Inl e \<Rightarrow> Inl e | Inr new \<Rightarrow> Inr (ls @ new))"
    proof (cases "appendNodeSummary child [] depth maxDepth maxChildren")
      case (Inl e)
      then show ?thesis
        using "3.IH"(1)[rule_format, of ls]
        by (simp add: appendChildren.simps)
    next
      case (Inr new)
      have a: "appendNodeSummary child lines0 depth maxDepth maxChildren = Inr (lines0 @ new)"
        using "3.IH"(1)[rule_format, of lines0] Inr by simp
      note ih = "3.IH"(2)[OF a, rule_format]
      have b: "appendNodeSummary child ls depth maxDepth maxChildren = Inr (ls @ new)"
        using "3.IH"(1)[rule_format, of ls] Inr by simp
      show ?thesis
        using ih[of "ls @ new"] ih[of new] Inr b
        by (simp add: appendChildren.simps split: sum.splits)
    qed
  qed
qed

lemma indent_Suc: "indent (Suc d) = indent d @ ''  ''"
  by (induction d) (simp_all add: indent_def)

lemma takeWhile_replicate_other:
  "c \<noteq> s \<Longrightarrow> takeWhile (\<lambda>x. x = s) (replicate n s @ c # r) = replicate n s"
  by (induction n) auto

lemma lead_unique:
  assumes "indent e @ c # r = indent e' @ c' # r'" "c \<noteq> CHR '' ''" "c' \<noteq> CHR '' ''"
  shows "e = e' \<and> c = c'"
proof -
  let ?sp = "\<lambda>x. x = CHR '' ''"
  have a: "takeWhile ?sp (indent e @ c # r) = indent e"
    using assms(2) by (simp add: indent_replicate takeWhile_replicate_other)
  have b: "takeWhile ?sp (indent e' @ c' # r') = indent e'"
    using assms(3) by (simp add: indent_replicate takeWhile_replicate_other)
  have "indent e = indent e'" using a b assms(1) by simp
  then have "length (indent e) = length (indent e')" by simp
  then have "e = e'" by (simp add: indent_replicate)
  then show ?thesis using assms(1) by simp
qed

lemma emitted_element: "emitted d md (elementLine d lowered attrs)"
  unfolding emitted_def elementLine_def by (rule exI[of _ d], rule exI[of _ "CHR ''<''"]) auto

lemma emitted_text: "emitted d md (textLine d v)"
  unfolding emitted_def textLine_def by (rule exI[of _ d], rule exI[of _ "CHR ''#''"]) auto

lemma emitted_omitted: "emitted d md (omittedLine d n)"
  unfolding emitted_def omittedLine_def
  by (rule exI[of _ "Suc d"], rule exI[of _ "CHR ''.''"]) (auto simp: indent_Suc)

lemma emitted_Suc: "d < md \<Longrightarrow> emitted (Suc d) md l \<Longrightarrow> emitted d md l"
  unfolding emitted_def by (elim exE conjE) (rule exI, rule exI, rule exI, auto simp: max_def split: if_splits)


lemma emitted_not_omitted:
  assumes "emitted (Suc d) md l"
  shows "\<not> isOmittedLineAt d l"
proof
  assume "isOmittedLineAt d l"
  then obtain r where l: "l = indent (Suc d) @ CHR ''.'' # (''.. ('' @ r)"
    by (auto simp: isOmittedLineAt_def prefix_def indent_Suc)
  from assms obtain e c r' where e: "l = indent e @ c # r'"
    "(c = CHR ''<'' \<or> c = CHR ''#'') \<and> Suc d \<le> e \<and> e \<le> max (Suc d) md \<or> c = CHR ''.'' \<and> Suc d < e \<and> e \<le> Suc (max (Suc d) md)"
    by (auto simp: emitted_def)
  have "c \<noteq> CHR '' ''" using e(2) by auto
  then have "Suc d = e \<and> CHR ''.'' = c"
    using lead_unique[of "Suc d" "CHR ''.''" _ e c r'] l e(1) by simp
  then show False using e(2) by auto
qed

lemma element_not_omitted: "\<not> isOmittedLineAt d (elementLine d lowered attrs)"
proof
  assume "isOmittedLineAt d (elementLine d lowered attrs)"
  then obtain r where "indent d @ CHR ''<'' # (lowered @ attrs @ ''>'') = indent (Suc d) @ CHR ''.'' # (''.. ('' @ r)"
    by (auto simp: isOmittedLineAt_def prefix_def indent_Suc elementLine_def)
  from lead_unique[OF this] show False by simp
qed

lemma omitted_is_omitted: "isOmittedLineAt d (omittedLine d n)"
  by (simp add: isOmittedLineAt_def omittedLine_def)

lemma appendNodeSummary_append:
  "appendNodeSummary node ls d md mc =
     (case appendNodeSummary node [] d md mc of Inl e \<Rightarrow> Inl e | Inr new \<Rightarrow> Inr (ls @ new))"
  using append_only(1) by blast

lemma appendChildren_append:
  "appendChildren cs ls d md mc =
     (case appendChildren cs [] d md mc of Inl e \<Rightarrow> Inl e | Inr new \<Rightarrow> Inr (ls @ new))"
  using append_only(2) by blast

lemma appendChildren_concat:
  "(appendChildren cs ls d md mc = Inr out) =
     (\<exists>rs. length rs = length cs \<and>
        (\<forall>i<length cs. appendNodeSummary (cs ! i) [] d md mc = Inr (rs ! i)) \<and>
        out = ls @ concat rs)"
proof (induction cs arbitrary: ls out)
  case Nil
  then show ?case by auto
next
  case (Cons c cs)
  show ?case
  proof (cases "appendNodeSummary c [] d md mc")
    case (Inl e)
    then have "appendChildren (c # cs) ls d md mc = Inl e"
      using appendNodeSummary_append[of c ls d md mc] by simp
    moreover have "\<not> (\<exists>rs. length rs = length (c # cs) \<and>
        (\<forall>i<length (c # cs). appendNodeSummary ((c # cs) ! i) [] d md mc = Inr (rs ! i)) \<and>
        out = ls @ concat rs)"
      using Inl by fastforce
    ultimately show ?thesis by simp
  next
    case (Inr new)
    then have step: "appendChildren (c # cs) ls d md mc = appendChildren cs (ls @ new) d md mc"
      using appendNodeSummary_append[of c ls d md mc] by simp
    show ?thesis
    proof
      assume "appendChildren (c # cs) ls d md mc = Inr out"
      then obtain rs where rs: "length rs = length cs"
        "\<forall>i<length cs. appendNodeSummary (cs ! i) [] d md mc = Inr (rs ! i)"
        "out = (ls @ new) @ concat rs"
        using step Cons.IH[of "ls @ new" out] by auto
      show "\<exists>rs. length rs = length (c # cs) \<and>
        (\<forall>i<length (c # cs). appendNodeSummary ((c # cs) ! i) [] d md mc = Inr (rs ! i)) \<and>
        out = ls @ concat rs"
        using rs Inr by (intro exI[of _ "new # rs"]) (auto simp: nth_Cons split: nat.splits)
    next
      assume "\<exists>rs. length rs = length (c # cs) \<and>
        (\<forall>i<length (c # cs). appendNodeSummary ((c # cs) ! i) [] d md mc = Inr (rs ! i)) \<and>
        out = ls @ concat rs"
      then obtain rs where rs: "length rs = Suc (length cs)"
        "\<forall>i<Suc (length cs). appendNodeSummary ((c # cs) ! i) [] d md mc = Inr (rs ! i)"
        "out = ls @ concat rs" by auto
      then obtain r rs' where r: "rs = r # rs'" by (cases rs) auto
      have "r = new" using rs(2) Inr r by fastforce
      have "\<forall>i<length cs. appendNodeSummary (cs ! i) [] d md mc = Inr (rs' ! i)"
        using rs(2) r by fastforce
      then have "appendChildren cs (ls @ new) d md mc = Inr ((ls @ new) @ concat rs')"
        using Cons.IH[of "ls @ new" "(ls @ new) @ concat rs'"] rs(1) r by auto
      then show "appendChildren (c # cs) ls d md mc = Inr out"
        using step rs(3) r \<open>r = new\<close> by simp
    qed
  qed
qed

lemma emitted_all:
  "\<forall>new. appendNodeSummary node [] d md mc = Inr new \<longrightarrow> (\<forall>l\<in>set new. emitted d md l)"
  "\<forall>new. appendChildren cs [] d md mc = Inr new \<longrightarrow> (\<forall>l\<in>set new. emitted d md l)"
proof (induction node "lines0 :: string list" d md mc and cs "lines0 :: string list" d md mc
    rule: appendNodeSummary_appendChildren.induct)
  case (1 node lines0 depth maxDepth maxChildren)
  show ?case
  proof (intro allI impI)
    fix new
    assume run: "appendNodeSummary node [] depth maxDepth maxChildren = Inr new"
    consider (c_skip) "\<not> truthy node \<or> typeof node \<noteq> ''object''"
      | (c_text) "truthy node" "typeof node = ''object''" "nodeNameOf node = JStr ''#text''"
      | (c_raise) e where "truthy node" "typeof node = ''object''" "nodeNameOf node \<noteq> JStr ''#text''"
          "callToLowerCase (nodeNameOf node) = Inl e"
      | (c_leaf) lowered where "truthy node" "typeof node = ''object''" "nodeNameOf node \<noteq> JStr ''#text''"
          "callToLowerCase (nodeNameOf node) = Inr lowered" "maxDepth \<le> depth"
      | (c_inner) lowered where "truthy node" "typeof node = ''object''" "nodeNameOf node \<noteq> JStr ''#text''"
          "callToLowerCase (nodeNameOf node) = Inr lowered" "depth < maxDepth"
      by (cases "callToLowerCase (nodeNameOf node)") (use not_le in blast)+
    then show "\<forall>l\<in>set new. emitted depth maxDepth l"
    proof cases
      case c_skip
      then show ?thesis using run by (simp add: appendNodeSummary_skip)
    next
      case c_text
      then show ?thesis using run
        by (auto simp: appendNodeSummary_text emitted_text split: if_splits)
    next
      case c_raise
      then show ?thesis using run by (simp add: appendNodeSummary_raise)
    next
      case c_leaf
      then show ?thesis using run
        by (auto simp: appendNodeSummary_leaf emitted_element emitted_omitted split: if_splits)
    next
      case c_inner
      have ih: "\<forall>new. appendChildren (take maxChildren (childrenOf node)) [] (depth + 1) maxDepth maxChildren = Inr new
          \<longrightarrow> (\<forall>l\<in>set new. emitted (depth + 1) maxDepth l)"
        using c_inner by (intro "1.IH"[OF _ _ _ refl _ refl refl]) auto
      let ?el = "elementLine depth lowered (attrStringOf node)"
      from run c_inner obtain lines2 where l2:
        "appendChildren (take maxChildren (childrenOf node)) [?el] (Suc depth) maxDepth maxChildren = Inr lines2"
        "new = lines2 @ (if maxChildren < length (childrenOf node)
                 then [omittedLine depth (length (childrenOf node) - maxChildren)] else [])"
        by (auto simp: appendNodeSummary_inner split: sum.splits)
      from l2(1) obtain ch where ch:
        "appendChildren (take maxChildren (childrenOf node)) [] (Suc depth) maxDepth maxChildren = Inr ch"
        "lines2 = ?el # ch"
        using appendChildren_append[of "take maxChildren (childrenOf node)" "[?el]" "Suc depth" maxDepth maxChildren]
        by (auto split: sum.splits)
      have "\<forall>l\<in>set ch. emitted depth maxDepth l"
        using ih ch(1) c_inner(5) by (auto intro: emitted_Suc)
      then show ?thesis
        using l2(2) ch(2) by (auto simp: emitted_element emitted_omitted)
    qed
  qed
next
  case (2 lines0 depth maxDepth maxChildren)
  then show ?case by simp
next
  case (3 child rest lines0 depth maxDepth maxChildren)
  show ?case
  proof (intro allI impI)
    fix new
    assume run: "appendChildren (child # rest) [] depth maxDepth maxChildren = Inr new"
    then obtain n1 where n1: "appendNodeSummary child [] depth maxDepth maxChildren = Inr n1"
      "appendChildren rest n1 depth maxDepth maxChildren = Inr new"
      by (auto split: sum.splits)
    have a: "appendNodeSummary child lines0 depth maxDepth maxChildren = Inr (lines0 @ n1)"
      using appendNodeSummary_append[of child lines0] n1(1) by simp
    from n1(2) obtain n2 where n2: "appendChildren rest [] depth maxDepth maxChildren = Inr n2" "new = n1 @ n2"
      using appendChildren_append[of rest n1] by (auto split: sum.splits)
    show "\<forall>l\<in>set new. emitted depth maxDepth l"
      using "3.IH"(1) n1(1) "3.IH"(2)[OF a] n2 by auto
  qed
qed


lemma trim_empty_iff: "(trim s = []) = (\<forall>c\<in>set s. isWhiteSpace c)"
proof
  assume t: "trim s = []"
  show "\<forall>c\<in>set s. isWhiteSpace c"
  proof (rule ccontr)
    assume "\<not> (\<forall>c\<in>set s. isWhiteSpace c)"
    then have ne: "dropWhile isWhiteSpace s \<noteq> []" by (simp add: dropWhile_eq_Nil_conv)
    then have "\<not> isWhiteSpace (hd (dropWhile isWhiteSpace s))" by (rule hd_dropWhile)
    moreover have "hd (dropWhile isWhiteSpace s) \<in> set (dropWhile isWhiteSpace s)"
      using ne by simp
    moreover have "\<forall>x\<in>set (dropWhile isWhiteSpace s). isWhiteSpace x"
      using t by (simp add: trim_def dropWhile_eq_Nil_conv)
    ultimately show False by blast
  qed
next
  assume "\<forall>c\<in>set s. isWhiteSpace c"
  then have "dropWhile isWhiteSpace s = []" by (simp add: dropWhile_eq_Nil_conv)
  then show "trim s = []" by (simp only: trim_def rev.simps dropWhile.simps)
qed






lemma callToLowerCase_JStr: "nodeNameOf node = JStr s \<Longrightarrow> callToLowerCase (nodeNameOf node) = Inr (toLowerCase s)"
  by simp



lemma appendNodeSummary_error:
  "appendNodeSummary node lines d md mc = Inl e \<Longrightarrow> e = TypeError"
  "appendChildren cs lines d md mc = Inl e \<Longrightarrow> e = TypeError"
proof (induction node lines d md mc and cs lines d md mc
    rule: appendNodeSummary_appendChildren.induct)
  case (1 node lines depth maxDepth maxChildren)
  consider (c_skip) "\<not> truthy node \<or> typeof node \<noteq> ''object''"
    | (c_text) "truthy node" "typeof node = ''object''" "nodeNameOf node = JStr ''#text''"
    | (c_raise) e' where "truthy node" "typeof node = ''object''" "nodeNameOf node \<noteq> JStr ''#text''"
        "callToLowerCase (nodeNameOf node) = Inl e'"
    | (c_leaf) lowered where "truthy node" "typeof node = ''object''" "nodeNameOf node \<noteq> JStr ''#text''"
        "callToLowerCase (nodeNameOf node) = Inr lowered" "maxDepth \<le> depth"
    | (c_inner) lowered where "truthy node" "typeof node = ''object''" "nodeNameOf node \<noteq> JStr ''#text''"
        "callToLowerCase (nodeNameOf node) = Inr lowered" "depth < maxDepth"
    by (cases "callToLowerCase (nodeNameOf node)") (use not_le in blast)+
  then show ?case
  proof cases
    case c_skip
    then show ?thesis using "1.prems" by (simp add: appendNodeSummary_skip)
  next
    case c_text
    then show ?thesis using "1.prems" by (simp add: appendNodeSummary_text split: if_splits)
  next
    case c_raise
    then have "e' = TypeError" by (cases "nodeNameOf node") auto
    then show ?thesis using c_raise "1.prems" by (simp add: appendNodeSummary_raise)
  next
    case c_leaf
    then show ?thesis using "1.prems" by (simp add: appendNodeSummary_leaf)
  next
    case c_inner
    then have "appendChildren (take maxChildren (childrenOf node))
        (lines @ [elementLine depth lowered (attrStringOf node)]) (depth + 1) maxDepth maxChildren = Inl e"
      using "1.prems" by (auto simp: appendNodeSummary_inner split: sum.splits)
    then show ?thesis
      using c_inner by (intro "1.IH"[OF _ _ _ refl _ refl refl]) auto
  qed
next
  case (2 lines depth maxDepth maxChildren)
  then show ?case by simp
next
  case (3 child rest lines depth maxDepth maxChildren)
  then show ?case by (auto split: sum.splits)
qed


lemma hasProp_object: "hasProp k v \<Longrightarrow> truthy v \<and> typeof v = ''object''"
  by (cases v) auto

lemma appendNodeSummary_non_object:
  "typeof v \<noteq> ''object'' \<Longrightarrow> appendNodeSummary v lines d md mc = Inr lines"
  by (simp add: appendNodeSummary_skip)


lemma firstOutline_none:
  "(\<forall>p\<in>set ps. \<forall>s. stringifyDomPayload p = Inr (Some s) \<longrightarrow> s = []) \<Longrightarrow>
   firstOutline ps = Inr None \<or> (\<exists>e. firstOutline ps = Inl e)"
  by (induction ps) (auto split: sum.splits option.splits)

lemma firstOutline_some:
  "firstOutline ps = Inr (Some s) \<Longrightarrow> s \<noteq> [] \<and> (\<exists>p\<in>set ps. stringifyDomPayload p = Inr (Some s))"
  by (induction ps) (auto split: sum.splits option.splits if_splits)


text \<open>
  Claim C1 says that the summarizer never raises, whatever the payload. The payload
  \<^verbatim>\<open>{"nodeName": 1}\<close> is its own root; its name is neither \<^verbatim>\<open>null\<close> nor \<^verbatim>\<open>undefined\<close>,
  so it is kept, and \<^verbatim>\<open>nodeName.toLowerCase()\<close> on the number raises a TypeError that leaves
  \<^verbatim>\<open>appendNodeSummary\<close> and \<^verbatim>\<open>stringifyDomPayload\<close>. By \<open>appendNodeSummary_error\<close> this is
  the only exception the summarizer raises.
\<close>

theorem numeric_nodeName_raises:
  "stringifyDomPayload (JObj [(''nodeName'', JNum 1)]) = Inl TypeError"
  by (simp add: stringifyDomPayload_def resolveRootNode_def nodeNameOf_def
      appendNodeSummary_raise)


text \<open>
  The exception is caught one level up: the capture of that payload gives the placeholder.
\<close>

theorem numeric_nodeName_raises_witness:
  "stringifyDomPayload (JObj [(''nodeName'', JNum 1)]) \<noteq> Inr None
   \<and> captureDomOutline (\<lambda>t. None)
        (Inr \<lparr>content = Some [JsonContent (JObj [(''nodeName'', JNum 1)])]\<rparr>) =
      ''<dom outline unavailable>''"
  using numeric_nodeName_raises
  by (simp add: captureDomOutline_def extractJsonPayload_def)






text \<open>
  Claim C5. Below the depth limit, an element node whose summary succeeds renders the
  first \<open>min maxChildren n\<close> of its \<open>n\<close> children, one after the other in their
  original order (\<open>rs ! i\<close> is what child \<open>i\<close> renders), and never more than
  \<open>maxChildren\<close>. When there are more children, the lines pushed for the node hold
  exactly one omission line of the node, placed last, and its count is the number of
  children minus the number rendered; otherwise they hold none.
\<close>

theorem children_limit:
  assumes "truthy node" "typeof node = ''object''" "nodeNameOf node = JStr s" "s \<noteq> ''#text''"
    and "depth < maxDepth"
    and "appendNodeSummary node lines depth maxDepth maxChildren = Inr out"
  shows "\<exists>rs. length rs = min maxChildren (length (childrenOf node)) \<and>
           (\<forall>i<length rs.
              appendNodeSummary (childrenOf node ! i) [] (Suc depth) maxDepth maxChildren = Inr (rs ! i)) \<and>
           out = lines @ elementLine depth (toLowerCase s) (attrStringOf node) # concat rs @
                   (if maxChildren < length (childrenOf node)
                    then [omittedLine depth (length (childrenOf node) - length rs)] else []) \<and>
           length (filter (isOmittedLineAt depth) (drop (length lines) out)) =
             (if maxChildren < length (childrenOf node) then 1 else 0)"
proof -
  let ?cs = "childrenOf node"
  let ?el = "elementLine depth (toLowerCase s) (attrStringOf node)"
  let ?om = "if maxChildren < length ?cs then [omittedLine depth (length ?cs - maxChildren)] else []"
  have low: "callToLowerCase (nodeNameOf node) = Inr (toLowerCase s)" using assms(3) by simp
  have nt: "nodeNameOf node \<noteq> JStr ''#text''" using assms(3,4) by simp
  from assms(6) obtain lines2 where l2:
    "appendChildren (take maxChildren ?cs) (lines @ [?el]) (Suc depth) maxDepth maxChildren = Inr lines2"
    "out = lines2 @ ?om"
    using appendNodeSummary_inner[OF assms(1,2) nt low assms(5), of lines maxChildren]
    by (auto split: sum.splits)
  from l2(1) obtain rs where rs: "length rs = length (take maxChildren ?cs)"
    "\<forall>i<length (take maxChildren ?cs).
       appendNodeSummary (take maxChildren ?cs ! i) [] (Suc depth) maxDepth maxChildren = Inr (rs ! i)"
    "lines2 = (lines @ [?el]) @ concat rs"
    using appendChildren_concat[of "take maxChildren ?cs" "lines @ [?el]" "Suc depth" maxDepth maxChildren lines2]
    by auto
  have len: "length rs = min maxChildren (length ?cs)" using rs(1) by simp
  have each: "\<forall>i<length rs.
              appendNodeSummary (?cs ! i) [] (Suc depth) maxDepth maxChildren = Inr (rs ! i)"
    using rs(1,2) by simp
  have cnt: "maxChildren < length ?cs \<Longrightarrow> length ?cs - maxChildren = length ?cs - length rs"
    using len by simp
  have outeq: "out = lines @ ?el # concat rs @
                   (if maxChildren < length ?cs
                    then [omittedLine depth (length ?cs - length rs)] else [])"
    using l2(2) rs(3) cnt by simp
  have child_lines: "\<forall>l\<in>set (concat rs). \<not> isOmittedLineAt depth l"
  proof
    fix l assume "l \<in> set (concat rs)"
    then obtain r where "r \<in> set rs" "l \<in> set r" by auto
    then obtain i where i: "i < length rs" "l \<in> set (rs ! i)"
      by (metis in_set_conv_nth)
    then have "emitted (Suc depth) maxDepth l"
      using each emitted_all(1)[of "?cs ! i" "Suc depth" maxDepth maxChildren] by blast
    then show "\<not> isOmittedLineAt depth l" by (rule emitted_not_omitted)
  qed
  then have f0: "filter (isOmittedLineAt depth) (concat rs) = []"
    by (simp add: filter_empty_conv)
  have "length (filter (isOmittedLineAt depth) (drop (length lines) out)) =
             (if maxChildren < length ?cs then 1 else 0)"
    using outeq f0 by (simp add: element_not_omitted omitted_is_omitted)
  then show ?thesis using len each outeq by blast
qed


theorem children_limit_witness:
  "appendNodeSummary sampleBody [''<html>''] 1 3 2 =
      Inr [''<html>'', ''  <body>'', ''    <div>'', ''      <span>'', ''    #text hi'',
           ''    ... (1 more children)'']
   \<and> length (filter (isOmittedLineAt 1)
        (drop 1 [''<html>'', ''  <body>'', ''    <div>'', ''      <span>'', ''    #text hi'',
           ''    ... (1 more children)''])) = 1"
proof -
  let ?out = "[''<html>'', ''  <body>'', ''    <div>'', ''      <span>'', ''    #text hi'',
           ''    ... (1 more children)'']"
  have h1: "truthy sampleBody" by code_simp
  have h2: "typeof sampleBody = ''object''" by code_simp
  have h3: "nodeNameOf sampleBody = JStr ''BODY''" by code_simp
  have h4: "''BODY'' \<noteq> ''#text''" by simp
  have h5: "(1::nat) < 3" by simp
  have h6: "appendNodeSummary sampleBody [''<html>''] 1 3 2 = Inr ?out" by code_simp
  have n: "length (childrenOf sampleBody) = 3" by code_simp
  from children_limit[OF h1 h2 h3 h4 h5 h6]
  have "length (filter (isOmittedLineAt 1) (drop (length [''<html>'']) ?out)) =
          (if 2 < length (childrenOf sampleBody) then 1 else 0)"
    by blast
  then show ?thesis using h6 n by simp
qed




text \<open>
  Claim C9. \<^verbatim>\<open>captureDomOutline\<close> always returns a string, and never the empty one: when
  the document fetch fails it returns the placeholder; when no payload yields a non-empty
  outline (each is rejected, renders nothing, or raises) it returns the placeholder;
  and whatever else it returns is the outline of one of the payloads.
\<close>

theorem capture_never_aborts:
  "captureDomOutline parse (Inl e) = ''<dom outline unavailable>''
   \<and> ((\<forall>p\<in>set (extractJsonPayload parse r). \<forall>s. stringifyDomPayload p = Inr (Some s) \<longrightarrow> s = []) \<longrightarrow>
        captureDomOutline parse (Inr r) = ''<dom outline unavailable>'')
   \<and> (captureDomOutline parse fetched = ''<dom outline unavailable>'' \<or>
        (\<exists>res. fetched = Inr res \<and>
           (\<exists>p\<in>set (extractJsonPayload parse res).
              stringifyDomPayload p = Inr (Some (captureDomOutline parse fetched)))))
   \<and> captureDomOutline parse fetched \<noteq> []"
proof (intro conjI impI)
  show "captureDomOutline parse (Inl e) = ''<dom outline unavailable>''"
    by (simp add: captureDomOutline_def)
next
  assume "\<forall>p\<in>set (extractJsonPayload parse r). \<forall>s. stringifyDomPayload p = Inr (Some s) \<longrightarrow> s = []"
  from firstOutline_none[OF this]
  show "captureDomOutline parse (Inr r) = ''<dom outline unavailable>''"
    by (auto simp: captureDomOutline_def)
next
  show "captureDomOutline parse fetched = ''<dom outline unavailable>'' \<or>
        (\<exists>res. fetched = Inr res \<and>
           (\<exists>p\<in>set (extractJsonPayload parse res).
              stringifyDomPayload p = Inr (Some (captureDomOutline parse fetched))))"
    using firstOutline_some
    by (auto simp: captureDomOutline_def split: sum.splits option.splits)
next
  show "captureDomOutline parse fetched \<noteq> []"
    using firstOutline_some
    by (auto simp: captureDomOutline_def split: sum.splits option.splits)
qed

theorem capture_never_aborts_witness:
  "captureDomOutline (\<lambda>t. None)
     (Inr \<lparr>content = Some [TextContent ''not json'', JsonContent (JObj [(''nodeName'', JNum 1)])]\<rparr>) =
   ''<dom outline unavailable>''
   \<and> captureDomOutline (\<lambda>t. None)
     (Inr \<lparr>content = Some [JsonContent JNull, JsonContent (JObj [(''nodeName'', JStr ''DIV'')])]\<rparr>) =
   ''<div>''"
proof -
  have ok: "captureDomOutline (\<lambda>t. None)
     (Inr \<lparr>content = Some [JsonContent JNull, JsonContent (JObj [(''nodeName'', JStr ''DIV'')])]\<rparr>) =
   ''<div>''"
    by code_simp
  let ?r = "\<lparr>content = Some [TextContent ''not json'', JsonContent (JObj [(''nodeName'', JNum 1)])]\<rparr>"
  have p: "extractJsonPayload (\<lambda>t. None) ?r = [JObj [(''nodeName'', JNum 1)]]"
    by (simp add: extractJsonPayload_def)
  have s: "stringifyDomPayload (JObj [(''nodeName'', JNum 1)]) = Inl TypeError"
    by (simp add: stringifyDomPayload_def resolveRootNode_def nodeNameOf_def
      appendNodeSummary_raise)
  have h: "\<forall>p\<in>set (extractJsonPayload (\<lambda>t. None) ?r). \<forall>s. stringifyDomPayload p = Inr (Some s) \<longrightarrow> s = []"
    using p s by simp
  show ?thesis
    using capture_never_aborts[of "\<lambda>t. None" e ?r fetched, THEN conjunct2, THEN conjunct1, THEN mp, OF h] ok
    by simp
qed

text \<open>
  Claim C10 says that a payload whose \<^verbatim>\<open>root\<close> is not an object is summarized to nothing
  (\<^verbatim>\<open>undefined\<close>). For the payload \<^verbatim>\<open>{"root": true}\<close> the root is taken, it is truthy, so
  the guard lets it through; \<^verbatim>\<open>appendNodeSummary\<close> pushes nothing for it and the result is
  the empty string, not \<^verbatim>\<open>undefined\<close>.
\<close>

theorem truthy_root_gives_empty_string:
  "hasProp ''root'' (JObj [(''root'', JBool True)])
   \<and> typeof (getProp (JObj [(''root'', JBool True)]) ''root'') \<noteq> ''object''
   \<and> stringifyDomPayload (JObj [(''root'', JBool True)]) = Inr (Some [])
   \<and> stringifyDomPayload (JObj [(''root'', JBool True)]) \<noteq> Inr None"
  by (simp add: stringifyDomPayload_def resolveRootNode_def appendNodeSummary_skip)


text \<open>
  Claim C10, amended. When the payload has the key \<^verbatim>\<open>root\<close>, the value of that key is
  the root, whatever else the payload holds: the summary is \<^verbatim>\<open>undefined\<close> when that value
  is falsy (\<^verbatim>\<open>null\<close>, \<^verbatim>\<open>undefined\<close>, \<^verbatim>\<open>false\<close>, 0, the empty string), the empty string
  when it is truthy but not an object, and its rendering otherwise. Without the key, an
  object payload is its own root unless \<^verbatim>\<open>result\<close> is an object with the key \<^verbatim>\<open>root\<close>.
\<close>

theorem root_key_wins:
  "(hasProp ''root'' payload \<longrightarrow>
      resolveRootNode payload = getProp payload ''root'' \<and>
      stringifyDomPayload payload =
        (if \<not> truthy (getProp payload ''root'') then Inr None
         else if typeof (getProp payload ''root'') \<noteq> ''object'' then Inr (Some [])
         else case appendNodeSummary (getProp payload ''root'') [] 0 3 8 of
                Inl e \<Rightarrow> Inl e
              | Inr lines \<Rightarrow> Inr (Some (join [CHR 10] lines))))
   \<and> (truthy payload \<and> typeof payload = ''object'' \<and> \<not> hasProp ''root'' payload \<longrightarrow>
        resolveRootNode payload =
          (if hasProp ''result'' payload \<and> truthy (getProp payload ''result'') \<and>
              typeof (getProp payload ''result'') = ''object'' \<and>
              hasProp ''root'' (getProp payload ''result'')
           then getProp (getProp payload ''result'') ''root''
           else payload))"
proof (intro conjI impI)
  assume h: "hasProp ''root'' payload"
  then have o: "truthy payload \<and> typeof payload = ''object''" by (rule hasProp_object)
  then show r: "resolveRootNode payload = getProp payload ''root''"
    using h by (simp add: resolveRootNode_def)
  show "stringifyDomPayload payload =
        (if \<not> truthy (getProp payload ''root'') then Inr None
         else if typeof (getProp payload ''root'') \<noteq> ''object'' then Inr (Some [])
         else case appendNodeSummary (getProp payload ''root'') [] 0 3 8 of
                Inl e \<Rightarrow> Inl e
              | Inr lines \<Rightarrow> Inr (Some (join [CHR 10] lines)))"
    using o r by (simp add: stringifyDomPayload_def appendNodeSummary_non_object)
next
  assume "truthy payload \<and> typeof payload = ''object'' \<and> \<not> hasProp ''root'' payload"
  then show "resolveRootNode payload =
          (if hasProp ''result'' payload \<and> truthy (getProp payload ''result'') \<and>
              typeof (getProp payload ''result'') = ''object'' \<and>
              hasProp ''root'' (getProp payload ''result'')
           then getProp (getProp payload ''result'') ''root''
           else payload)"
    by (simp add: resolveRootNode_def)
qed

theorem root_key_wins_witness:
  "stringifyDomPayload (JObj [(''root'', JNull), (''nodeName'', JStr ''DIV'')]) = Inr None
   \<and> stringifyDomPayload (JObj [(''root'', JStr ''x''), (''nodeName'', JStr ''DIV'')]) = Inr (Some [])
   \<and> resolveRootNode (JObj [(''nodeName'', JStr ''DIV'')]) = JObj [(''nodeName'', JStr ''DIV'')]"
proof -
  have h1: "hasProp ''root'' (JObj [(''root'', JNull), (''nodeName'', JStr ''DIV'')])" by simp
  have h2: "hasProp ''root'' (JObj [(''root'', JStr ''x''), (''nodeName'', JStr ''DIV'')])" by simp
  have h3: "truthy (JObj [(''nodeName'', JStr ''DIV'')]) \<and> typeof (JObj [(''nodeName'', JStr ''DIV'')]) = ''object''
     \<and> \<not> hasProp ''root'' (JObj [(''nodeName'', JStr ''DIV'')])" by simp
  show ?thesis
    using root_key_wins[of "JObj [(''root'', JNull), (''nodeName'', JStr ''DIV'')]", THEN conjunct1, rule_format, OF h1]
      root_key_wins[of "JObj [(''root'', JStr ''x''), (''nodeName'', JStr ''DIV'')]", THEN conjunct1, rule_format, OF h2]
      root_key_wins[of "JObj [(''nodeName'', JStr ''DIV'')]", THEN conjunct2, rule_format, OF h3]
    by simp
qed


section \<open>Properties of the capability resolver\<close>















section \<open>Properties of the plan validator\<close>


lemma parseTargetType_Inr:
  "(parseTargetType v = Inr t) =
     (v = JStr ''dom-event'' \<and> t = DomEvent \<or> v = JStr ''function-call'' \<and> t = FunctionCall)"
  by (cases v) auto

lemma parseOptionalString_Inr:
  "(parseOptionalString n k v = Inr r) = (optionalOk n v \<and> r = optionalValue v)"
  by (cases v) (auto simp: optionalOk_def optionalValue_def)

lemma parseConsoleNotes_Inr:
  "(parseConsoleNotes v = Inr ns) = (notesOk v \<and> ns = notesValue v)"
  by (cases v) (auto simp: notesOk_def notesValue_def)

lemma validate_Inr:
  "(validate raw = Inr plan) =
     ((\<exists>fs. raw = JObj fs) \<and>
      (\<exists>t. parseTargetType (getProp raw ''targetType'') = Inr t \<and> othersOk raw \<and>
           plan = planOf t raw \<and> superRefine plan = []))"
proof (cases raw)
  case (JObj fs)
  let ?tt = "parseTargetType (getProp raw ''targetType'')"
  let ?sel = "parseOptionalString 1 ''selector'' (getProp raw ''selector'')"
  let ?ev = "parseOptionalString 1 ''eventType'' (getProp raw ''eventType'')"
  let ?fn = "parseOptionalString 1 ''functionName'' (getProp raw ''functionName'')"
  let ?ex = "parseOptionalString 0 ''explanation'' (getProp raw ''explanation'')"
  let ?notes = "parseConsoleNotes (getProp raw ''consoleNotes'')"
  show ?thesis
  proof (cases "\<exists>t s e f x n. ?tt = Inr t \<and> ?sel = Inr s \<and> ?ev = Inr e \<and> ?fn = Inr f \<and> ?ex = Inr x \<and> ?notes = Inr n")
    case True
    then obtain t s e f x n where p: "?tt = Inr t" "?sel = Inr s" "?ev = Inr e" "?fn = Inr f"
      "?ex = Inr x" "?notes = Inr n" by blast
    have ok: "othersOk raw" and v: "planOf t raw = \<lparr>targetType = t, selector = s, eventType = e, functionName = f,
                            explanation = x, consoleNotes = n\<rparr>"
      using p(2-6) by (simp_all add: parseOptionalString_Inr parseConsoleNotes_Inr othersOk_def planOf_def)
    have "validate raw = (if superRefine (planOf t raw) = [] then Inr (planOf t raw)
        else Inl (superRefine (planOf t raw)))"
      unfolding validate_def JObj jsval.case Let_def
      using p v unfolding JObj by simp
    then show ?thesis using JObj p(1) ok by auto
  next
    case False
    then have "\<exists>issues. validate raw = Inl issues"
      unfolding validate_def JObj jsval.case Let_def
      by (auto split: sum.splits)
    moreover have "\<not> (\<exists>t. ?tt = Inr t \<and> othersOk raw)"
      using False by (auto simp: parseOptionalString_Inr parseConsoleNotes_Inr othersOk_def)
    ultimately show ?thesis by auto
  qed
qed (auto simp: validate_def)

lemma superRefine_planOf:
  "(superRefine (planOf t raw) = []) =
     ((t = DomEvent \<longrightarrow> (\<exists>s. getProp raw ''selector'' = JStr s \<and> s \<noteq> [])) \<and>
      (t = FunctionCall \<longrightarrow> (\<exists>s. getProp raw ''functionName'' = JStr s \<and> s \<noteq> [])))"
proof -
  have f: "\<And>v. falsyString (optionalValue v) = (\<not> (\<exists>s. v = JStr s \<and> s \<noteq> []))"
    by (auto simp: falsyString_def optionalValue_def split: jsval.splits)
  show ?thesis
    by (cases t) (auto simp: superRefine_def planOf_def f)
qed


text \<open>
  Claim C8 says that validation succeeds whenever the required member of the declared
  variant is a non-empty string. The schema also constrains the optional members: a
  \<^verbatim>\<open>dom-event\<close> plan with the selector \<^verbatim>\<open>#save\<close> and an empty \<^verbatim>\<open>eventType\<close> is rejected.
\<close>

theorem malformed_optional_field_fails:
  "getProp (JObj [(''targetType'', JStr ''dom-event''), (''selector'', JStr ''#save''),
                  (''eventType'', JStr [])]) ''selector'' = JStr ''#save''
   \<and> validate (JObj [(''targetType'', JStr ''dom-event''), (''selector'', JStr ''#save''),
                  (''eventType'', JStr [])]) = Inl [TooSmall ''eventType'']"
  by (simp add: validate_def issuesOf_def)


text \<open>
  Claim C8, amended. Validation fails when \<^verbatim>\<open>targetType\<close> is missing or is not one of the
  two tags, when a \<^verbatim>\<open>dom-event\<close> input has no non-empty string \<^verbatim>\<open>selector\<close>, when a
  \<^verbatim>\<open>function-call\<close> input has no non-empty string \<^verbatim>\<open>functionName\<close>, and when an optional
  member is present with a shape the schema does not accept (\<^verbatim>\<open>selector\<close>, \<^verbatim>\<open>eventType\<close>,
  \<^verbatim>\<open>functionName\<close>: non-empty strings; \<^verbatim>\<open>explanation\<close>: a string; \<^verbatim>\<open>consoleNotes\<close>: an array
  of strings). It succeeds on either variant when the required member is a non-empty
  string and every optional member is absent or of its accepted shape; in the result
  \<^verbatim>\<open>consoleNotes\<close> is the empty sequence when absent and the other optional members are
  absent when absent.
\<close>

theorem validate_accepts_exactly:
  "(getProp raw ''targetType'' \<noteq> JStr ''dom-event'' \<and>
    getProp raw ''targetType'' \<noteq> JStr ''function-call'' \<longrightarrow> isl (validate raw))
   \<and> (getProp raw ''targetType'' = JStr ''dom-event'' \<and>
       (\<forall>s. getProp raw ''selector'' = JStr s \<longrightarrow> s = []) \<longrightarrow> isl (validate raw))
   \<and> (getProp raw ''targetType'' = JStr ''function-call'' \<and>
       (\<forall>s. getProp raw ''functionName'' = JStr s \<longrightarrow> s = []) \<longrightarrow> isl (validate raw))
   \<and> (\<not> othersOk raw \<longrightarrow> isl (validate raw))
   \<and> (getProp raw ''targetType'' = JStr ''dom-event'' \<and>
       getProp raw ''selector'' = JStr s \<and> s \<noteq> [] \<and> othersOk raw \<longrightarrow>
         validate raw = Inr (planOf DomEvent raw))
   \<and> (getProp raw ''targetType'' = JStr ''function-call'' \<and>
       getProp raw ''functionName'' = JStr s \<and> s \<noteq> [] \<and> othersOk raw \<longrightarrow>
         validate raw = Inr (planOf FunctionCall raw))
   \<and> (validate raw = Inr plan \<longrightarrow>
        (getProp raw ''consoleNotes'' = JUndefined \<longrightarrow> consoleNotes plan = []) \<and>
        (getProp raw ''selector'' = JUndefined \<longrightarrow> selector plan = None) \<and>
        (getProp raw ''eventType'' = JUndefined \<longrightarrow> eventType plan = None) \<and>
        (getProp raw ''functionName'' = JUndefined \<longrightarrow> functionName plan = None) \<and>
        (getProp raw ''explanation'' = JUndefined \<longrightarrow> explanation plan = None))"
proof -
  have fail: "\<And>r. (\<forall>p. r \<noteq> Inr p) \<Longrightarrow> isl (r :: ZodIssue list + BreakpointPlan)"
    by (case_tac r) auto
  have obj: "\<And>k v. getProp raw k = v \<Longrightarrow> v \<noteq> JUndefined \<Longrightarrow> \<exists>fs. raw = JObj fs"
    by (cases raw) auto
  have c1: "getProp raw ''targetType'' \<noteq> JStr ''dom-event'' \<and>
    getProp raw ''targetType'' \<noteq> JStr ''function-call'' \<longrightarrow> isl (validate raw)"
    by (auto intro!: fail simp: validate_Inr parseTargetType_Inr)
  have c2: "getProp raw ''targetType'' = JStr ''dom-event'' \<and>
       (\<forall>s. getProp raw ''selector'' = JStr s \<longrightarrow> s = []) \<longrightarrow> isl (validate raw)"
    by (auto intro!: fail simp: validate_Inr parseTargetType_Inr superRefine_planOf)
  have c3: "getProp raw ''targetType'' = JStr ''function-call'' \<and>
       (\<forall>s. getProp raw ''functionName'' = JStr s \<longrightarrow> s = []) \<longrightarrow> isl (validate raw)"
    by (auto intro!: fail simp: validate_Inr parseTargetType_Inr superRefine_planOf)
  have c4: "\<not> othersOk raw \<longrightarrow> isl (validate raw)"
    by (auto intro!: fail simp: validate_Inr)
  have c5: "getProp raw ''targetType'' = JStr ''dom-event'' \<and>
       getProp raw ''selector'' = JStr s \<and> s \<noteq> [] \<and> othersOk raw \<longrightarrow>
         validate raw = Inr (planOf DomEvent raw)"
    using obj[of "''targetType''" "JStr ''dom-event''"]
    by (auto simp: validate_Inr parseTargetType_Inr superRefine_planOf)
  have c6: "getProp raw ''targetType'' = JStr ''function-call'' \<and>
       getProp raw ''functionName'' = JStr s \<and> s \<noteq> [] \<and> othersOk raw \<longrightarrow>
         validate raw = Inr (planOf FunctionCall raw)"
    using obj[of "''targetType''" "JStr ''function-call''"]
    by (auto simp: validate_Inr parseTargetType_Inr superRefine_planOf)
  have c7: "validate raw = Inr plan \<longrightarrow>
        (getProp raw ''consoleNotes'' = JUndefined \<longrightarrow> consoleNotes plan = []) \<and>
        (getProp raw ''selector'' = JUndefined \<longrightarrow> selector plan = None) \<and>
        (getProp raw ''eventType'' = JUndefined \<longrightarrow> eventType plan = None) \<and>
        (getProp raw ''functionName'' = JUndefined \<longrightarrow> functionName plan = None) \<and>
        (getProp raw ''explanation'' = JUndefined \<longrightarrow> explanation plan = None)"
    by (auto simp: validate_Inr planOf_def optionalValue_def notesValue_def)
  show ?thesis using c1 c2 c3 c4 c5 c6 c7 by blast
qed


theorem validate_accepts_exactly_witness:
  "validate samplePlanInput =
     Inr \<lparr>targetType = DomEvent, selector = Some ''#save-btn'', eventType = Some ''click'',
          functionName = None, explanation = None, consoleNotes = []\<rparr>
   \<and> validate (JObj [(''targetType'', JStr ''function-call''), (''functionName'', JStr ''app.save''),
                    (''consoleNotes'', JArr [JStr ''watch''])]) =
     Inr \<lparr>targetType = FunctionCall, selector = None, eventType = None,
          functionName = Some ''app.save'', explanation = None, consoleNotes = [''watch'']\<rparr>
   \<and> isl (validate (JObj [(''targetType'', JStr ''function-call''), (''selector'', JStr ''#a'')]))
   \<and> isl (validate (JObj [(''selector'', JStr ''#a'')]))
   \<and> isl (validate (JObj [(''targetType'', JStr ''dom-event''), (''selector'', JStr [])]))
   \<and> isl (validate (JObj [(''targetType'', JStr ''dom-event''), (''selector'', JStr ''#a''),
                         (''explanation'', JNum 3)]))"
proof -
  have h5: "getProp samplePlanInput ''targetType'' = JStr ''dom-event'' \<and>
       getProp samplePlanInput ''selector'' = JStr ''#save-btn'' \<and> ''#save-btn'' \<noteq> [] \<and>
       othersOk samplePlanInput"
    by (simp add: samplePlanInput_def othersOk_def optionalOk_def notesOk_def)
  have p: "planOf DomEvent samplePlanInput =
     \<lparr>targetType = DomEvent, selector = Some ''#save-btn'', eventType = Some ''click'',
          functionName = None, explanation = None, consoleNotes = []\<rparr>"
    by (simp add: samplePlanInput_def planOf_def optionalValue_def notesValue_def)
  let ?g = "JObj [(''targetType'', JStr ''function-call''), (''functionName'', JStr ''app.save''),
                    (''consoleNotes'', JArr [JStr ''watch''])]"
  have h6: "getProp ?g ''targetType'' = JStr ''function-call'' \<and>
       getProp ?g ''functionName'' = JStr ''app.save'' \<and> ''app.save'' \<noteq> [] \<and> othersOk ?g"
    by (simp add: othersOk_def optionalOk_def notesOk_def)
  have q: "planOf FunctionCall ?g =
     \<lparr>targetType = FunctionCall, selector = None, eventType = None,
          functionName = Some ''app.save'', explanation = None, consoleNotes = [''watch'']\<rparr>"
    by (simp add: planOf_def optionalValue_def notesValue_def)
  have h7: "validate samplePlanInput = Inr (planOf DomEvent samplePlanInput)"
    using validate_accepts_exactly[of samplePlanInput "''#save-btn''", THEN conjunct2, THEN conjunct2,
        THEN conjunct2, THEN conjunct2, THEN conjunct1, THEN mp, OF h5] .
  have d: "getProp samplePlanInput ''consoleNotes'' = JUndefined" by (simp add: samplePlanInput_def)
  have n: "consoleNotes (planOf DomEvent samplePlanInput) = []"
    using validate_accepts_exactly[of samplePlanInput "''#save-btn''" "planOf DomEvent samplePlanInput",
        THEN conjunct2, THEN conjunct2, THEN conjunct2, THEN conjunct2, THEN conjunct2, THEN conjunct2,
        THEN mp, OF h7, THEN conjunct1, THEN mp, OF d] .
  let ?f = "JObj [(''targetType'', JStr ''function-call''), (''selector'', JStr ''#a'')]"
  have h3: "getProp ?f ''targetType'' = JStr ''function-call'' \<and>
       (\<forall>s. getProp ?f ''functionName'' = JStr s \<longrightarrow> s = [])" by simp
  let ?m = "JObj [(''selector'', JStr ''#a'')]"
  have h1: "getProp ?m ''targetType'' \<noteq> JStr ''dom-event'' \<and>
    getProp ?m ''targetType'' \<noteq> JStr ''function-call''" by simp
  let ?d = "JObj [(''targetType'', JStr ''dom-event''), (''selector'', JStr [])]"
  have h2: "getProp ?d ''targetType'' = JStr ''dom-event'' \<and>
       (\<forall>s. getProp ?d ''selector'' = JStr s \<longrightarrow> s = [])" by simp
  let ?x = "JObj [(''targetType'', JStr ''dom-event''), (''selector'', JStr ''#a''),
                         (''explanation'', JNum 3)]"
  have h4: "\<not> othersOk ?x" by (simp add: othersOk_def optionalOk_def)
  note t = validate_accepts_exactly
  show ?thesis
    using h7 n
      t[of ?g "''app.save''" plan, THEN conjunct2, THEN conjunct2, THEN conjunct2, THEN conjunct2,
            THEN conjunct2, THEN conjunct1, THEN mp, OF h6]
      t[of ?f s plan, THEN conjunct2, THEN conjunct2, THEN conjunct1, THEN mp, OF h3]
      t[of ?m s plan, THEN conjunct1, THEN mp, OF h1]
      t[of ?d s plan, THEN conjunct2, THEN conjunct1, THEN mp, OF h2]
      t[of ?x s plan, THEN conjunct2, THEN conjunct2, THEN conjunct2, THEN conjunct1, THEN mp, OF h4]
      p q
    by simp
qed

section \<open>Properties of the generated fragments\<close>













lemma walkSlots_names: "(v, m) \<in> set (walkSlots h ctx parts) \<Longrightarrow> m \<in> set parts"
  by (induction parts arbitrary: ctx) (auto split: if_splits)













end
